theory Spec2Isabelle
  imports Main
begin

section \<open>The tab panel\<close>

text \<open>
  A \<^verbatim>\<open>TabPanel\<close> of \<^verbatim>\<open>tabview.ts\<close>, reduced to the fields the container reads
  and writes: the getters \<^verbatim>\<open>selected\<close> and \<^verbatim>\<open>disabled\<close> (both \<^verbatim>\<open>!!this._x\<close>, so a
  boolean), and the plain fields \<^verbatim>\<open>closed\<close> and \<^verbatim>\<open>loaded\<close>.
\<close>

record tabpanel =
  selected :: bool
  disabled :: bool
  closed :: bool
  loaded :: bool

text \<open>
  The setter \<^verbatim>\<open>set selected(val)\<close>: it stores the value and, when the value is true,
  sets \<^verbatim>\<open>loaded\<close>. (Its call of \<^verbatim>\<open>cd.detectChanges()\<close> re-renders the panel and
  touches no field.)
\<close>

definition set_selected :: "tabpanel \<Rightarrow> bool \<Rightarrow> tabpanel" where
  "set_selected p val = p\<lparr>selected := val, loaded := (if val then True else loaded p)\<rparr>"

section \<open>The container\<close>

text \<open>
  Panels are objects, and the container holds references to them: \<^verbatim>\<open>this.tabs\<close> is
  an array of references, and \<^verbatim>\<open>open\<close>, \<^verbatim>\<open>close\<close> and \<^verbatim>\<open>closeTab\<close> receive a
  reference that need not be in that array. So the model has a store \<open>panels\<close> from
  references (natural numbers) to panel objects, and \<open>tabs\<close> is a list of
  references.

  What the container does to the outside is written to a log, \<open>effects\<close>, in the order
  it happens. An emitted notification records what a listener sees at that moment:
  the panels of \<open>tabs\<close> that are selected, the guard flag and the dirty flag.
\<close>

type_synonym ref = nat
type_synonym event = nat

record observed =
  seen_selected :: "ref list"
  seen_guard :: bool
  seen_tabChanged :: bool

datatype effect =
    ActiveIndexChange int observed
  | OnChange "event option" int observed
  | OnClose event int bool
  | ScrollIntoView ref
  | PreventDefault event
  | StopPropagation event

text \<open>
  \<open>OnClose e i c\<close> is the emission \<^verbatim>\<open>onClose.emit({originalEvent, index, close})\<close>; the flag
  \<open>c\<close> says whether the event carries the \<^verbatim>\<open>close\<close> continuation (controlled mode).
  \<open>ScrollIntoView a\<close> is the call \<^verbatim>\<open>tabHeader.scrollIntoView({ block: 'nearest' })\<close> on the
  header element that was rendered for the panel \<open>a\<close>.

  \<open>activeIndex\<close> is \<^verbatim>\<open>_activeIndex\<close>, \<open>None\<close> while it is \<^verbatim>\<open>undefined\<close> or \<^verbatim>\<open>null\<close>.
  \<open>tabs\<close> is \<^verbatim>\<open>this.tabs\<close>; before the first \<open>initTabs\<close> the field is \<^verbatim>\<open>undefined\<close>, which
  the \<^verbatim>\<open>activeIndex\<close> setter treats like the empty array (\<^verbatim>\<open>this.tabs && this.tabs.length\<close>),
  and the other operations are considered after \<open>initTabs\<close> only.
  \<open>writeBack\<close> describes the listener of \<^verbatim>\<open>activeIndexChange\<close>: whether it assigns the
  emitted index to the \<^verbatim>\<open>activeIndex\<close> property while the emission runs.
  \<open>navbar\<close> is the view child \<^verbatim>\<open>navbar\<close>: \<open>None\<close> while it is not bound (before the view is
  initialised), otherwise the header elements with \<^verbatim>\<open>data-pc-section="headeraction"\<close>
  that are in the strip, in their order, each named by the panel it was rendered for.
\<close>

record tabview =
  panels :: "ref \<Rightarrow> tabpanel"
  tabs :: "ref list"
  activeIndex :: "int option"
  preventActiveIndexPropagation :: bool
  tabChanged :: bool
  controlClose :: bool
  writeBack :: bool
  navbar :: "ref list option"
  effects :: "effect list"

datatype error = TypeError

text \<open>
  A call either returns, \<open>Inr s\<close>, or throws, \<open>Inl (e, s)\<close>; in both cases \<open>s\<close> is the
  state the container is left in (an exception does not undo the assignments made
  before it).
\<close>

type_synonym outcome = "(error \<times> tabview) + tabview"

fun after :: "outcome \<Rightarrow> tabview" where
  "after (Inl (e, s)) = s"
| "after (Inr s) = s"

definition write_selected :: "tabview \<Rightarrow> ref \<Rightarrow> bool \<Rightarrow> tabview" where
  "write_selected s a val = s\<lparr>panels := (panels s)(a := set_selected (panels s a) val)\<rparr>"

definition is_selected :: "tabview \<Rightarrow> ref \<Rightarrow> bool" where
  "is_selected s a = selected (panels s a)"

definition observe :: "tabview \<Rightarrow> observed" where
  "observe s = \<lparr>seen_selected = filter (is_selected s) (tabs s),
                seen_guard = preventActiveIndexPropagation s,
                seen_tabChanged = tabChanged s\<rparr>"

definition log :: "tabview \<Rightarrow> effect list \<Rightarrow> tabview" where
  "log s es = s\<lparr>effects := effects s @ es\<rparr>"

subsection \<open>Lookups\<close>

text \<open>\<^verbatim>\<open>findSelectedTab\<close>: the first panel of \<open>tabs\<close> that is selected, or \<^verbatim>\<open>null\<close>.\<close>

definition findSelectedTab :: "tabview \<Rightarrow> ref option" where
  "findSelectedTab s = find (is_selected s) (tabs s)"

text \<open>\<^verbatim>\<open>findTabIndex\<close>: the first index at which \<open>tabs\<close> holds the panel, or \<open>-1\<close>.\<close>

fun findTabIndex_from :: "nat \<Rightarrow> ref list \<Rightarrow> ref \<Rightarrow> int" where
  "findTabIndex_from i [] tab = -1"
| "findTabIndex_from i (t # ts) tab = (if t = tab then int i else findTabIndex_from (Suc i) ts tab)"

definition findTabIndex :: "tabview \<Rightarrow> ref \<Rightarrow> int" where
  "findTabIndex s tab = findTabIndex_from 0 (tabs s) tab"

text \<open>
  \<^verbatim>\<open>
  updateScrollBar(index: number) {
      let tabHeader = find(this.navbar.nativeElement, '[data-pc-section="headeraction"]')[index];
      if (tabHeader) {
          tabHeader.scrollIntoView({ block: 'nearest' });
      }
  }\<close>
  Reading \<^verbatim>\<open>nativeElement\<close> of an unbound \<^verbatim>\<open>navbar\<close> throws a TypeError. The array of
  headers has no element at a negative position or at one beyond its end; then nothing
  is scrolled.
\<close>

definition updateScrollBar :: "tabview \<Rightarrow> int \<Rightarrow> outcome" where
  "updateScrollBar s index =
    (case navbar s of
       None \<Rightarrow> Inl (TypeError, s)
     | Some headers \<Rightarrow>
         if 0 \<le> index \<and> index < int (length headers)
         then Inr (log s [ScrollIntoView (headers ! nat index)])
         else Inr s)"

text \<open>
  The template renders the strip: inside the element \<^verbatim>\<open>navbar\<close>,
  \<^verbatim>\<open>
  @for (tab of tabs; track tab; let i = $index) {
      @if (!tab.closed) {
          <button ... [attr.data-pc-section]="'headeraction'" ...>\<close>
  so there is one header for each panel of \<open>tabs\<close> that is not closed, in the order of
  \<open>tabs\<close>. \<open>render\<close> brings the strip up to date with the state.
\<close>

definition render :: "tabview \<Rightarrow> tabview" where
  "render s = s\<lparr>navbar := Some (filter (\<lambda>a. \<not> closed (panels s a)) (tabs s))\<rparr>"

text \<open>
  After the view has been checked the dirty flag is consumed:
  \<^verbatim>\<open>
  ngAfterViewChecked() {
      if (isPlatformBrowser(this.platformId)) {
          if (this.tabChanged) {
              this.updateInkBar();
              this.tabChanged = false;
          }
      }
  }\<close>
  The platform is a browser. \<^verbatim>\<open>updateInkBar\<close> only restyles the ink bar element, which
  is not part of the model.
\<close>

definition ngAfterViewChecked :: "tabview \<Rightarrow> tabview" where
  "ngAfterViewChecked s = (if tabChanged s then s\<lparr>tabChanged := False\<rparr> else s)"

subsection \<open>The \<open>activeIndex\<close> setter\<close>

text \<open>
  \<^verbatim>\<open>
  set activeIndex(val: number) {
      this._activeIndex = val;
      if (this.preventActiveIndexPropagation) {
          this.preventActiveIndexPropagation = false;
          return;
      }
      if (this.tabs && this.tabs.length && this._activeIndex != null
              && this.tabs.length > this._activeIndex) {
          (this.findSelectedTab() as TabPanel).selected = false;
          this.tabs[this._activeIndex].selected = true;
          this.tabChanged = true;
          this.updateScrollBar(val);
      }
  }\<close>
  \<^verbatim>\<open>findSelectedTab()\<close> may be \<^verbatim>\<open>null\<close>, and \<^verbatim>\<open>this.tabs[k]\<close> is \<^verbatim>\<open>undefined\<close> for a
  negative \<open>k\<close> (which passes \<^verbatim>\<open>this.tabs.length > k\<close>): writing \<^verbatim>\<open>.selected\<close> on either
  throws a TypeError. The call of \<^verbatim>\<open>updateScrollBar\<close> at the end may throw as well. Indices
  are integers here; the property has type \<^verbatim>\<open>number\<close>.
\<close>

definition set_activeIndex :: "tabview \<Rightarrow> int option \<Rightarrow> outcome" where
  "set_activeIndex s val =
    (let s1 = s\<lparr>activeIndex := val\<rparr> in
     if preventActiveIndexPropagation s1 then Inr (s1\<lparr>preventActiveIndexPropagation := False\<rparr>)
     else case val of
       None \<Rightarrow> Inr s1
     | Some k \<Rightarrow>
         if tabs s1 \<noteq> [] \<and> int (length (tabs s1)) > k then
           (case findSelectedTab s1 of
              None \<Rightarrow> Inl (TypeError, s1)
            | Some a \<Rightarrow>
                let s2 = write_selected s1 a False in
                if k < 0 then Inl (TypeError, s2)
                else let s3 = write_selected s2 (tabs s2 ! nat k) True;
                         s4 = s3\<lparr>tabChanged := True\<rparr>
                     in updateScrollBar s4 k)
         else Inr s1)"

subsection \<open>\<open>initTabs\<close>\<close>

text \<open>
  \<^verbatim>\<open>
  initTabs(): void {
      this.tabs = (this.tabPanels as QueryList<TabPanel>).toArray();
      let selectedTab: TabPanel = this.findSelectedTab() as TabPanel;
      if (!selectedTab && this.tabs.length) {
          if (this.activeIndex != null && this.tabs.length > this.activeIndex)
              this.tabs[this.activeIndex].selected = true;
          else this.tabs[0].selected = true;
          this.tabChanged = true;
      }
      this.cd.markForCheck();
  }\<close>
  The argument \<open>ps\<close> is the content of the query list \<^verbatim>\<open>tabPanels\<close>, the panels that are
  children of the container at that moment.
\<close>

definition initTabs :: "tabview \<Rightarrow> ref list \<Rightarrow> outcome" where
  "initTabs s ps =
    (let s1 = s\<lparr>tabs := ps\<rparr> in
     case findSelectedTab s1 of
       Some a \<Rightarrow> Inr s1
     | None \<Rightarrow>
         if tabs s1 \<noteq> [] then
           (case activeIndex s1 of
              None \<Rightarrow> Inr ((write_selected s1 (tabs s1 ! 0) True)\<lparr>tabChanged := True\<rparr>)
            | Some k \<Rightarrow>
                if int (length (tabs s1)) > k then
                  (if k < 0 then Inl (TypeError, s1)
                   else Inr ((write_selected s1 (tabs s1 ! nat k) True)\<lparr>tabChanged := True\<rparr>))
                else Inr ((write_selected s1 (tabs s1 ! 0) True)\<lparr>tabChanged := True\<rparr>))
         else Inr s1)"

subsection \<open>\<open>open\<close>\<close>

text \<open>
  The emission \<^verbatim>\<open>activeIndexChange.emit(i)\<close> runs its listeners before it returns. With
  \<open>writeBack\<close> the listener assigns \<open>i\<close> to the \<^verbatim>\<open>activeIndex\<close> property, which runs the
  setter above; an exception of the setter leaves the emission.
\<close>

definition emit_activeIndexChange :: "tabview \<Rightarrow> int \<Rightarrow> outcome" where
  "emit_activeIndexChange s i =
    (let s1 = log s [ActiveIndexChange i (observe s)] in
     if writeBack s1 then set_activeIndex s1 (Some i) else Inr s1)"

definition emit_onChange :: "tabview \<Rightarrow> event option \<Rightarrow> int \<Rightarrow> tabview" where
  "emit_onChange s ev i = log s [OnChange ev i (observe s)]"

definition preventDefault :: "tabview \<Rightarrow> event option \<Rightarrow> tabview" where
  "preventDefault s ev = (case ev of None \<Rightarrow> s | Some e \<Rightarrow> log s [PreventDefault e])"

text \<open>
  \<^verbatim>\<open>
  open(event: Event, tab: TabPanel) {
      if (tab.disabled) {
          if (event) { event.preventDefault(); }
          return;
      }
      if (!tab.selected) {
          let selectedTab: TabPanel = this.findSelectedTab() as TabPanel;
          if (selectedTab) { selectedTab.selected = false; }
          this.tabChanged = true;
          tab.selected = true;
          let selectedTabIndex = this.findTabIndex(tab);
          this.preventActiveIndexPropagation = true;
          this.activeIndexChange.emit(selectedTabIndex);
          this.onChange.emit({ originalEvent: event, index: selectedTabIndex });
          this.updateScrollBar(selectedTabIndex);
      }
      if (event) { event.preventDefault(); }
  }\<close>
\<close>

definition open_tab :: "tabview \<Rightarrow> event option \<Rightarrow> ref \<Rightarrow> outcome" where
  "open_tab s ev tab =
    (if disabled (panels s tab) then Inr (preventDefault s ev)
     else if \<not> selected (panels s tab) then
       (let s1 = (case findSelectedTab s of None \<Rightarrow> s | Some a \<Rightarrow> write_selected s a False);
            s2 = s1\<lparr>tabChanged := True\<rparr>;
            s3 = write_selected s2 tab True;
            selectedTabIndex = findTabIndex s3 tab;
            s4 = s3\<lparr>preventActiveIndexPropagation := True\<rparr>
        in case emit_activeIndexChange s4 selectedTabIndex of
             Inl x \<Rightarrow> Inl x
           | Inr s5 \<Rightarrow>
               let s6 = emit_onChange s5 ev selectedTabIndex
               in case updateScrollBar s6 selectedTabIndex of
                    Inl x \<Rightarrow> Inl x
                  | Inr s7 \<Rightarrow> Inr (preventDefault s7 ev))
     else Inr (preventDefault s ev))"

subsection \<open>\<open>closeTab\<close> and \<open>close\<close>\<close>

text \<open>
  \<^verbatim>\<open>
  closeTab(tab: TabPanel) {
      if (tab.disabled) { return; }
      if (tab.selected) {
          this.tabChanged = true;
          tab.selected = false;
          for (let i = 0; i < this.tabs.length; i++) {
              let tabPanel = this.tabs[i];
              if (!tabPanel.closed && !tab.disabled) {
                  tabPanel.selected = true;
                  break;
              }
          }
      }
      tab.closed = true;
  }\<close>
  The loop tests \<^verbatim>\<open>tab.disabled\<close>, the panel being closed, and runs before
  \<^verbatim>\<open>tab.closed = true\<close>.
\<close>

fun closeTab_loop :: "tabview \<Rightarrow> ref \<Rightarrow> ref list \<Rightarrow> tabview" where
  "closeTab_loop s tab [] = s"
| "closeTab_loop s tab (tabPanel # rest) =
     (if \<not> closed (panels s tabPanel) \<and> \<not> disabled (panels s tab)
      then write_selected s tabPanel True
      else closeTab_loop s tab rest)"

definition closeTab :: "tabview \<Rightarrow> ref \<Rightarrow> tabview" where
  "closeTab s tab =
    (if disabled (panels s tab) then s
     else
       let s1 = (if selected (panels s tab)
                 then closeTab_loop (write_selected (s\<lparr>tabChanged := True\<rparr>) tab False) tab (tabs s)
                 else s)
       in s1\<lparr>panels := (panels s1)(tab := (panels s1 tab)\<lparr>closed := True\<rparr>)\<rparr>)"

text \<open>
  \<^verbatim>\<open>
  close(event: Event, tab: TabPanel) {
      if (this.controlClose) {
          this.onClose.emit({ originalEvent: event, index: this.findTabIndex(tab),
                              close: () => { this.closeTab(tab); } });
      } else {
          this.closeTab(tab);
          this.onClose.emit({ originalEvent: event, index: this.findTabIndex(tab) });
      }
      event.stopPropagation();
  }\<close>
  In controlled mode the listener decides whether and when to call the continuation;
  calling it is a call of \<open>closeTab\<close>.
\<close>

definition close_tab :: "tabview \<Rightarrow> event \<Rightarrow> ref \<Rightarrow> tabview" where
  "close_tab s ev tab =
    (if controlClose s
     then log (log s [OnClose ev (findTabIndex s tab) True]) [StopPropagation ev]
     else let s1 = closeTab s tab
          in log (log s1 [OnClose ev (findTabIndex s1 tab) False]) [StopPropagation ev])"

section \<open>Sequences of operations\<close>

text \<open>
  The four operations that change the selection, and the state each leaves (whether
  the call returned or threw). Between them a change detection pass may run: \<open>Render\<close>
  renders the strip again and then runs \<^verbatim>\<open>ngAfterViewChecked\<close>.
\<close>

datatype operation =
    Open "event option" ref
  | CloseTab ref
  | SetActiveIndex "int option"
  | InitTabs "ref list"
  | Render

fun step :: "tabview \<Rightarrow> operation \<Rightarrow> tabview" where
  "step s (Open ev tab) = after (open_tab s ev tab)"
| "step s (CloseTab tab) = closeTab s tab"
| "step s (SetActiveIndex val) = after (set_activeIndex s val)"
| "step s (InitTabs ps) = after (initTabs s ps)"
| "step s Render = ngAfterViewChecked (render s)"

fun run :: "tabview \<Rightarrow> operation list \<Rightarrow> tabview" where
  "run s [] = s"
| "run s (x # xs) = run (step s x) xs"

text \<open>At most one panel of the list \<open>ps\<close> is selected in the store of \<open>s\<close>.\<close>

definition at_most_one_selected_of :: "tabview \<Rightarrow> ref list \<Rightarrow> bool" where
  "at_most_one_selected_of s ps =
     (\<forall>a \<in> set ps. \<forall>b \<in> set ps. is_selected s a \<and> is_selected s b \<longrightarrow> a = b)"

text \<open>At most one panel of \<open>tabs\<close> that is not closed is selected.\<close>

definition at_most_one_open_selected :: "tabview \<Rightarrow> bool" where
  "at_most_one_open_selected s =
     (\<forall>a \<in> set (tabs s). \<forall>b \<in> set (tabs s).
        (is_selected s a \<and> \<not> closed (panels s a)) \<and> (is_selected s b \<and> \<not> closed (panels s b))
        \<longrightarrow> a = b)"

text \<open>
  What a sequence of operations is given: \<open>initTabs\<close> receives a list of children of
  which at most one is selected at that moment, and \<open>closeTab\<close> receives a panel that is
  in \<open>tabs\<close>.
\<close>

fun permitted :: "tabview \<Rightarrow> operation \<Rightarrow> bool" where
  "permitted s (InitTabs ps) = at_most_one_selected_of s ps"
| "permitted s (CloseTab tab) = (tab \<in> set (tabs s))"
| "permitted s (Open ev tab) = True"
| "permitted s (SetActiveIndex val) = True"
| "permitted s Render = True"

fun admissible :: "tabview \<Rightarrow> operation list \<Rightarrow> bool" where
  "admissible s [] = True"
| "admissible s (x # xs) = (permitted s x \<and> admissible (step s x) xs)"

section \<open>Scrolling the header strip\<close>







section \<open>Example containers\<close>

text \<open>
  A panel as its constructor leaves it, a container before its children are
  discovered and its view initialised, and the container of three such panels after
  \<open>initTabs\<close> and the first rendering.
\<close>

definition fresh_panel :: tabpanel where
  "fresh_panel = \<lparr>selected = False, disabled = False, closed = False, loaded = False\<rparr>"

definition created :: tabview where
  "created = \<lparr>panels = (\<lambda>a. fresh_panel), tabs = [], activeIndex = None,
     preventActiveIndexPropagation = False, tabChanged = False, controlClose = False,
     writeBack = False, navbar = None, effects = []\<rparr>"

definition three_tabs :: tabview where
  "three_tabs = run created [InitTabs [0, 1, 2], Render]"


text \<open>Panel 1 is disabled.\<close>

definition one_disabled :: tabview where
  "one_disabled = three_tabs\<lparr>panels := (panels three_tabs)(1 := fresh_panel\<lparr>disabled := True\<rparr>)\<rparr>"

text \<open>Panel 0 is declared disabled and \<^verbatim>\<open>activeIndex\<close> is bound to 1 before the children are discovered.\<close>

definition disabled_first :: tabview where
  "disabled_first = run
      (created\<lparr>panels := (\<lambda>a. fresh_panel)(0 := fresh_panel\<lparr>disabled := True\<rparr>),
               activeIndex := Some 1\<rparr>) [InitTabs [0, 1, 2], Render]"

text \<open>Panels 0 and 1 are both declared with \<^verbatim>\<open>[selected]="true"\<close>.\<close>

definition two_declared :: tabview where
  "two_declared = run
      (created\<lparr>panels := (\<lambda>a. fresh_panel)(0 := fresh_panel\<lparr>selected := True, loaded := True\<rparr>,
                                              1 := fresh_panel\<lparr>selected := True, loaded := True\<rparr>)\<rparr>)
      [InitTabs [0, 1, 2], Render]"

text \<open>\<^verbatim>\<open>activeIndex\<close> is bound to \<open>-1\<close> before the children are discovered.\<close>

definition negative_index :: tabview where
  "negative_index = after (initTabs (created\<lparr>activeIndex := Some (- 1)\<rparr>) [0, 1, 2])"

text \<open>
  Two panels; the second is opened (no listener writes the index back), then both are
  closed, the second one twice.
\<close>

definition all_closed :: tabview where
  "all_closed = run created
     [InitTabs [0, 1], Render, Open None 1, CloseTab 0, CloseTab 1, CloseTab 1]"

text \<open>
  Panel 2 is selected at initialization and then removed from the children; panel 1 is
  opened; then \<open>closeTab\<close> is called on the removed panel 2.
\<close>

definition stale_close :: tabview where
  "stale_close = run (created\<lparr>activeIndex := Some 2\<rparr>)
     [InitTabs [0, 1, 2], Render, InitTabs [0, 1], Render, Open None 1, CloseTab 2]"

text \<open>Three panels, the unselected panel 1 closed.\<close>

definition one_closed :: tabview where
  "one_closed = run created [InitTabs [0, 1, 2], Render, CloseTab 1, Render]"

text \<open>
  Three panels, the first one closed while it was selected; the strip, rendered again,
  has the headers of panels 1 and 2.
\<close>

definition first_closed :: tabview where
  "first_closed = run created [InitTabs [0, 1, 2], Render, CloseTab 0, Render]"





section \<open>Basic facts\<close>

lemmas model_defs =
  set_selected_def write_selected_def is_selected_def observe_def log_def findSelectedTab_def
  findTabIndex_def updateScrollBar_def render_def ngAfterViewChecked_def set_activeIndex_def
  initTabs_def emit_activeIndexChange_def emit_onChange_def preventDefault_def open_tab_def
  closeTab_def close_tab_def fresh_panel_def created_def

subsection \<open>The example containers, evaluated\<close>

lemma three_tabs_eq:
  "three_tabs = created\<lparr>panels := (\<lambda>a. fresh_panel)(0 := fresh_panel\<lparr>selected := True, loaded := True\<rparr>),
                         tabs := [0, 1, 2], navbar := Some [0, 1, 2]\<rparr>"
  by (simp add: three_tabs_def model_defs)

lemma negative_index_eq:
  "negative_index = created\<lparr>tabs := [0, 1, 2], activeIndex := Some (- 1)\<rparr>"
  by (simp add: negative_index_def model_defs)

lemma all_closed_eq:
  "all_closed = created\<lparr>panels := (\<lambda>a. fresh_panel)
       (0 := \<lparr>selected = False, disabled = False, closed = True, loaded = True\<rparr>,
        1 := \<lparr>selected = False, disabled = False, closed = True, loaded = True\<rparr>),
     tabs := [0, 1], preventActiveIndexPropagation := True, tabChanged := True,
     navbar := Some [0, 1],
     effects := [ActiveIndexChange 1 \<lparr>seen_selected = [1], seen_guard = True, seen_tabChanged = True\<rparr>,
                 OnChange None 1 \<lparr>seen_selected = [1], seen_guard = True, seen_tabChanged = True\<rparr>,
                 ScrollIntoView 1]\<rparr>"
  by (simp add: all_closed_def model_defs fun_upd_twist)

lemma disabled_first_eq:
  "disabled_first = created\<lparr>panels := (\<lambda>a. fresh_panel)
       (0 := fresh_panel\<lparr>disabled := True\<rparr>, 1 := fresh_panel\<lparr>selected := True, loaded := True\<rparr>),
     tabs := [0, 1, 2], activeIndex := Some 1, navbar := Some [0, 1, 2]\<rparr>"
  by (simp add: disabled_first_def model_defs)

lemma two_declared_eq:
  "two_declared = created\<lparr>panels := (\<lambda>a. fresh_panel)
       (0 := fresh_panel\<lparr>selected := True, loaded := True\<rparr>, 1 := fresh_panel\<lparr>selected := True, loaded := True\<rparr>),
     tabs := [0, 1, 2], navbar := Some [0, 1, 2]\<rparr>"
  by (simp add: two_declared_def model_defs)

lemma one_closed_eq:
  "one_closed = created\<lparr>panels := (\<lambda>a. fresh_panel)
       (0 := fresh_panel\<lparr>selected := True, loaded := True\<rparr>, 1 := fresh_panel\<lparr>closed := True\<rparr>),
     tabs := [0, 1, 2], navbar := Some [0, 2]\<rparr>"
  by (simp add: one_closed_def model_defs)

lemma first_closed_eq:
  "first_closed = created\<lparr>panels := (\<lambda>a. fresh_panel)
       (0 := \<lparr>selected = True, disabled = False, closed = True, loaded = True\<rparr>),
     tabs := [0, 1, 2], navbar := Some [1, 2]\<rparr>"
  by (simp add: first_closed_def model_defs)


lemma stale_close_panels:
  "tabs stale_close = [0, 1] \<and> map (panels stale_close) [0, 1, 2]
     = [\<lparr>selected = True, disabled = False, closed = False, loaded = True\<rparr>,
        \<lparr>selected = True, disabled = False, closed = False, loaded = True\<rparr>,
        \<lparr>selected = False, disabled = False, closed = True, loaded = True\<rparr>]"
  by (simp add: stale_close_def model_defs)

subsection \<open>The lookups\<close>

lemma is_selected_fun: "is_selected s = (\<lambda>b. selected (panels s b))"
  by (rule ext) (simp add: is_selected_def)

lemma findSelectedTab_Some:
  "findSelectedTab s = Some a \<Longrightarrow> a \<in> set (tabs s) \<and> is_selected s a"
  unfolding findSelectedTab_def by (auto simp: find_Some_iff)

lemma findSelectedTab_None:
  "findSelectedTab s = None \<longleftrightarrow> (\<forall>a \<in> set (tabs s). \<not> is_selected s a)"
  unfolding findSelectedTab_def by (auto simp: find_None_iff)

lemma findSelectedTab_only:
  assumes "a \<in> set (tabs s)" and "\<forall>b \<in> set (tabs s). is_selected s b \<longleftrightarrow> b = a"
  shows "findSelectedTab s = Some a"
proof (cases "findSelectedTab s")
  case None
  with assms show ?thesis by (auto simp: findSelectedTab_None)
next
  case (Some b)
  from findSelectedTab_Some [OF Some] assms(2) have "b = a" by blast
  with Some show ?thesis by simp
qed





subsection \<open>What \<open>updateScrollBar\<close> and \<open>open\<close> do\<close>

lemma updateScrollBar_fields [simp]:
  "panels (after (updateScrollBar s i)) = panels s"
  "tabs (after (updateScrollBar s i)) = tabs s"
  "activeIndex (after (updateScrollBar s i)) = activeIndex s"
  "preventActiveIndexPropagation (after (updateScrollBar s i)) = preventActiveIndexPropagation s"
  "tabChanged (after (updateScrollBar s i)) = tabChanged s"
  by (simp_all add: updateScrollBar_def log_def split: option.splits)

lemma updateScrollBar_bound:
  "navbar s = Some hs \<Longrightarrow>
   updateScrollBar s i = Inr (log s (if 0 \<le> i \<and> i < int (length hs) then [ScrollIntoView (hs ! nat i)] else []))"
  by (simp add: updateScrollBar_def log_def)

lemma updateScrollBar_unbound:
  "navbar s = None \<Longrightarrow> updateScrollBar s i = Inl (TypeError, s)"
  by (simp add: updateScrollBar_def)

lemma open_tab_idle:
  assumes "disabled (panels s tab) \<or> selected (panels s tab)"
  shows "open_tab s ev tab = Inr (preventDefault s ev)"
  using assms by (auto simp: open_tab_def)

lemma preventDefault_fields [simp]:
  "panels (preventDefault s ev) = panels s" "tabs (preventDefault s ev) = tabs s"
  "navbar (preventDefault s ev) = navbar s"
  by (simp_all add: preventDefault_def log_def split: option.splits)

text \<open>
  \<open>open\<close> on a panel that is neither disabled nor selected, with the strip bound and
  with the strip unbound. In the second case \<^verbatim>\<open>updateScrollBar\<close> throws after both
  emissions, and \<^verbatim>\<open>event.preventDefault()\<close> is not reached.
\<close>

lemma open_tab_bound:
  assumes "\<not> disabled (panels s tab)" and "\<not> selected (panels s tab)" and "navbar s = Some hs"
  shows "\<exists>s'. open_tab s ev tab = Inr s'
     \<and> tabs s' = tabs s \<and> navbar s' = navbar s
     \<and> panels s' = (case findSelectedTab s of None \<Rightarrow> panels s
                      | Some a \<Rightarrow> (panels s)(a := set_selected (panels s a) False))
                    (tab := set_selected (panels s tab) True)
     \<and> tabChanged s'
     \<and> effects s' = effects s @
          [ActiveIndexChange (findTabIndex s tab)
             \<lparr>seen_selected = filter (\<lambda>b. selected (panels s' b)) (tabs s), seen_guard = True,
                seen_tabChanged = True\<rparr>,
           OnChange ev (findTabIndex s tab)
             \<lparr>seen_selected = filter (\<lambda>b. selected (panels s' b)) (tabs s),
                seen_guard = (\<not> writeBack s), seen_tabChanged = True\<rparr>]
          @ (if 0 \<le> findTabIndex s tab \<and> findTabIndex s tab < int (length hs)
             then [ScrollIntoView (hs ! nat (findTabIndex s tab))] else [])
          @ (case ev of None \<Rightarrow> [] | Some e \<Rightarrow> [PreventDefault e])
     \<and> preventActiveIndexPropagation s' = (\<not> writeBack s)
     \<and> activeIndex s' = (if writeBack s then Some (findTabIndex s tab) else activeIndex s)"
proof (cases "findSelectedTab s")
  case None
  with assms show ?thesis
    by (cases ev; cases "writeBack s")
       (simp_all add: open_tab_def emit_activeIndexChange_def emit_onChange_def set_activeIndex_def
          preventDefault_def updateScrollBar_def log_def observe_def write_selected_def
          set_selected_def is_selected_fun findTabIndex_def Let_def)
next
  case (Some a)
  from findSelectedTab_Some [OF Some] assms(2) have ne: "a \<noteq> tab"
    by (auto simp: is_selected_def)
  with Some assms show ?thesis
    by (cases ev; cases "writeBack s")
       (simp_all add: open_tab_def emit_activeIndexChange_def emit_onChange_def set_activeIndex_def
          preventDefault_def updateScrollBar_def log_def observe_def write_selected_def
          set_selected_def is_selected_fun findTabIndex_def Let_def)
qed

lemma open_tab_unbound:
  assumes "\<not> disabled (panels s tab)" and "\<not> selected (panels s tab)" and "navbar s = None"
  shows "\<exists>s'. open_tab s ev tab = Inl (TypeError, s')
     \<and> tabs s' = tabs s \<and> navbar s' = navbar s
     \<and> panels s' = (case findSelectedTab s of None \<Rightarrow> panels s
                      | Some a \<Rightarrow> (panels s)(a := set_selected (panels s a) False))
                    (tab := set_selected (panels s tab) True)
     \<and> tabChanged s'
     \<and> effects s' = effects s @
          [ActiveIndexChange (findTabIndex s tab)
             \<lparr>seen_selected = filter (\<lambda>b. selected (panels s' b)) (tabs s), seen_guard = True,
                seen_tabChanged = True\<rparr>,
           OnChange ev (findTabIndex s tab)
             \<lparr>seen_selected = filter (\<lambda>b. selected (panels s' b)) (tabs s),
                seen_guard = (\<not> writeBack s), seen_tabChanged = True\<rparr>]
     \<and> preventActiveIndexPropagation s' = (\<not> writeBack s)
     \<and> activeIndex s' = (if writeBack s then Some (findTabIndex s tab) else activeIndex s)"
proof (cases "findSelectedTab s")
  case None
  with assms show ?thesis
    by (cases "writeBack s")
       (simp_all add: open_tab_def emit_activeIndexChange_def emit_onChange_def set_activeIndex_def
          updateScrollBar_def log_def observe_def write_selected_def
          set_selected_def is_selected_fun findTabIndex_def Let_def)
next
  case (Some a)
  from findSelectedTab_Some [OF Some] assms(2) have ne: "a \<noteq> tab"
    by (auto simp: is_selected_def)
  with Some assms show ?thesis
    by (cases "writeBack s")
       (simp_all add: open_tab_def emit_activeIndexChange_def emit_onChange_def set_activeIndex_def
          updateScrollBar_def log_def observe_def write_selected_def
          set_selected_def is_selected_fun findTabIndex_def Let_def)
qed

lemma open_tab_unselected:
  assumes "\<not> disabled (panels s tab)" and "\<not> selected (panels s tab)"
  shows "tabs (after (open_tab s ev tab)) = tabs s
     \<and> panels (after (open_tab s ev tab)) =
         (case findSelectedTab s of None \<Rightarrow> panels s
          | Some a \<Rightarrow> (panels s)(a := set_selected (panels s a) False))
         (tab := set_selected (panels s tab) True)"
proof (cases "navbar s")
  case None
  from open_tab_unbound [OF assms None, of ev] show ?thesis by auto
next
  case (Some hs)
  from open_tab_bound [OF assms Some, of ev] show ?thesis by auto
qed

section \<open>Opening a panel that is already selected\<close>

text \<open>
  C4. Calling \<open>open\<close> on a panel that is selected and not disabled emits neither
  \<^verbatim>\<open>activeIndexChange\<close> nor \<^verbatim>\<open>onChange\<close> and changes no panel: the call returns, and the
  only thing it does is \<^verbatim>\<open>event.preventDefault()\<close> when an event was given.
\<close>

theorem open_selected_idempotent:
  assumes "selected (panels s tab)" and "\<not> disabled (panels s tab)"
  shows "open_tab s ev tab = Inr (preventDefault s ev)
       \<and> panels (preventDefault s ev) = panels s
       \<and> tabs (preventDefault s ev) = tabs s
       \<and> activeIndex (preventDefault s ev) = activeIndex s
       \<and> preventActiveIndexPropagation (preventDefault s ev) = preventActiveIndexPropagation s
       \<and> tabChanged (preventDefault s ev) = tabChanged s
       \<and> effects (preventDefault s ev) = effects s @ (case ev of None \<Rightarrow> [] | Some e \<Rightarrow> [PreventDefault e])"
  using assms by (simp add: open_tab_def preventDefault_def log_def split: option.splits)

text \<open>In the container of three panels, panel 0 is the selected one.\<close>

theorem open_selected_idempotent_witness:
  "selected (panels three_tabs 0) \<and> \<not> disabled (panels three_tabs 0)
   \<and> open_tab three_tabs (Some 7) 0 = Inr (preventDefault three_tabs (Some 7))
   \<and> effects (preventDefault three_tabs (Some 7)) = [PreventDefault 7]"
  using open_selected_idempotent [of three_tabs 0 "Some 7"]
  by (simp add: three_tabs_eq created_def fresh_panel_def)

section \<open>The order of steps in \<open>open\<close>\<close>




text \<open>
  With panel 0 closed, the header at position 1 of the strip is the header of panel 2:
  opening panel 1 scrolls the header of panel 2 into view.
\<close>

lemma open_scrolls_other_header:
  "effects (after (open_tab first_closed None 1)) =
       [ActiveIndexChange 1 \<lparr>seen_selected = [1], seen_guard = True, seen_tabChanged = True\<rparr>,
        OnChange None 1 \<lparr>seen_selected = [1], seen_guard = True, seen_tabChanged = True\<rparr>,
        ScrollIntoView 2]"
  by (simp add: first_closed_eq) (simp add: model_defs)

section \<open>Closing a disabled panel\<close>

text \<open>
  C7. For a disabled panel \<open>closeTab\<close> does nothing: no panel changes, the panel is not
  marked closed and the selection stays. \<open>close\<close> changes no panel either, but it does
  emit \<^verbatim>\<open>onClose\<close> with the index of the panel (in controlled mode with the continuation)
  and then stops the propagation of the event; these two entries are all it adds to
  the log.
\<close>

theorem close_disabled:
  assumes "disabled (panels s tab)"
  shows "closeTab s tab = s
       \<and> close_tab s ev tab = log s [OnClose ev (findTabIndex s tab) (controlClose s), StopPropagation ev]
       \<and> panels (close_tab s ev tab) = panels s
       \<and> effects (close_tab s ev tab)
           = effects s @ [OnClose ev (findTabIndex s tab) (controlClose s), StopPropagation ev]"
  using assms by (simp add: closeTab_def close_tab_def log_def)

text \<open>Panel 1 of three is disabled.\<close>

theorem close_disabled_witness:
  "disabled (panels one_disabled 1)
   \<and> closeTab one_disabled 1 = one_disabled
   \<and> effects (close_tab one_disabled 5 1)
       = effects one_disabled @ [OnClose 5 (findTabIndex one_disabled 1) (controlClose one_disabled), StopPropagation 5]"
proof -
  have h: "disabled (panels one_disabled 1)"
    by (simp add: one_disabled_def fresh_panel_def)
  from h close_disabled [OF h, of 5] show ?thesis by blast
qed

text \<open>
  Closing that disabled panel is not silent: the log, empty before, holds the
  notification \<^verbatim>\<open>onClose\<close> with index 1 afterwards.
\<close>

theorem close_disabled_counterexample:
  "disabled (panels one_disabled 1) \<and> \<not> controlClose one_disabled \<and> effects one_disabled = []
   \<and> effects (close_tab one_disabled 5 1) = [OnClose 5 1 False, StopPropagation 5]"
  by (simp add: one_disabled_def three_tabs_eq created_def fresh_panel_def findTabIndex_def
      close_tab_def closeTab_def log_def)

section \<open>Setting \<open>activeIndex\<close>\<close>

text \<open>
  C10. When no panel of \<open>tabs\<close> is selected and the guard flag is not pending, setting
  \<^verbatim>\<open>activeIndex\<close> to an index in range throws a TypeError (the \<^verbatim>\<open>null\<close> result of
  \<^verbatim>\<open>findSelectedTab\<close> is dereferenced): the index is stored and nothing else changes, so
  the target panel is not selected.
\<close>

theorem set_activeIndex_no_selection:
  assumes "\<forall>a \<in> set (tabs s). \<not> selected (panels s a)"
    and "\<not> preventActiveIndexPropagation s"
    and "0 \<le> k" and "k < int (length (tabs s))"
  shows "set_activeIndex s (Some k) = Inl (TypeError, s\<lparr>activeIndex := Some k\<rparr>)"
proof -
  have "findSelectedTab (s\<lparr>activeIndex := Some k\<rparr>) = None"
    using assms(1) by (simp add: findSelectedTab_def find_None_iff is_selected_def)
  moreover have "tabs s \<noteq> []" using assms(3,4) by auto
  ultimately show ?thesis using assms(2,4) by (simp add: set_activeIndex_def)
qed

text \<open>
  The container whose initialization failed on the index \<open>-1\<close> has three panels and none
  selected.
\<close>

theorem set_activeIndex_no_selection_witness:
  "map (\<lambda>a. selected (panels negative_index a)) (tabs negative_index) = [False, False, False]
   \<and> \<not> preventActiveIndexPropagation negative_index
   \<and> (0::int) \<le> 1 \<and> 1 < int (length (tabs negative_index))
   \<and> set_activeIndex negative_index (Some 1) = Inl (TypeError, negative_index\<lparr>activeIndex := Some 1\<rparr>)"
proof -
  have h1: "\<forall>a \<in> set (tabs negative_index). \<not> selected (panels negative_index a)"
    by (simp add: negative_index_eq created_def fresh_panel_def)
  have h2: "\<not> preventActiveIndexPropagation negative_index"
    by (simp add: negative_index_eq created_def)
  have h3: "(0::int) \<le> 1" by simp
  have h4: "1 < int (length (tabs negative_index))"
    by (simp add: negative_index_eq created_def)
  have h0: "map (\<lambda>a. selected (panels negative_index a)) (tabs negative_index) = [False, False, False]"
    by (simp add: negative_index_eq created_def fresh_panel_def)
  from h0 h2 h3 h4 set_activeIndex_no_selection [OF h1 h2 h3 h4] show ?thesis by blast
qed

text \<open>
  With the guard flag pending the setter returns before it looks for the selected
  panel: in the container whose two panels are closed and unselected, left with the
  guard set by \<open>open\<close>, setting the index 0 returns normally.
\<close>

theorem set_activeIndex_no_selection_counterexample:
  "map (is_selected all_closed) (tabs all_closed) = [False, False]
   \<and> preventActiveIndexPropagation all_closed
   \<and> set_activeIndex all_closed (Some 0)
       = Inr (all_closed\<lparr>activeIndex := Some 0, preventActiveIndexPropagation := False\<rparr>)"
  by (simp add: all_closed_eq) (simp add: model_defs)

text \<open>
  C5. Let \<open>k\<close> be an index in range whose panel is not disabled, the guard flag not
  pending, and exactly one panel of \<open>tabs\<close> selected. Then after setting \<^verbatim>\<open>activeIndex\<close> to
  \<open>k\<close> the panel \<open>tabs[k]\<close> is selected and every other panel of \<open>tabs\<close> is not. The call
  returns when the header strip is bound; when it is not, \<^verbatim>\<open>updateScrollBar\<close> throws,
  after the selection was written.
\<close>

theorem set_activeIndex_round_trip:
  assumes "0 \<le> k" and "k < int (length (tabs s))"
    and "\<not> disabled (panels s (tabs s ! nat k))"
    and "\<not> preventActiveIndexPropagation s"
    and "a \<in> set (tabs s)" and "\<forall>b \<in> set (tabs s). selected (panels s b) \<longleftrightarrow> b = a"
  shows "tabs (after (set_activeIndex s (Some k))) = tabs s
       \<and> selected (panels (after (set_activeIndex s (Some k))) (tabs s ! nat k))
       \<and> (\<forall>b \<in> set (tabs s). b \<noteq> tabs s ! nat k
             \<longrightarrow> \<not> selected (panels (after (set_activeIndex s (Some k))) b))
       \<and> (navbar s \<noteq> None \<longrightarrow> (\<exists>s'. set_activeIndex s (Some k) = Inr s'))"
proof -
  let ?s1 = "s\<lparr>activeIndex := Some k\<rparr>"
  have "findSelectedTab ?s1 = Some a"
    by (rule findSelectedTab_only) (use assms(5,6) in \<open>simp_all add: is_selected_def\<close>)
  moreover have "tabs s \<noteq> []" using assms(1,2) by auto
  ultimately show ?thesis
    using assms(1,2,4,6)
    by (cases "navbar s")
       (simp_all add: set_activeIndex_def write_selected_def set_selected_def updateScrollBar_def
          log_def Let_def)
qed

text \<open>In the container of three panels, where panel 0 is selected, the index 2 is set.\<close>

theorem set_activeIndex_round_trip_witness:
  "(0::int) \<le> 2 \<and> 2 < int (length (tabs three_tabs))
   \<and> \<not> disabled (panels three_tabs (tabs three_tabs ! nat 2))
   \<and> \<not> preventActiveIndexPropagation three_tabs
   \<and> tabs three_tabs = [0, 1, 2]
   \<and> map (\<lambda>b. selected (panels three_tabs b)) (tabs three_tabs) = [True, False, False]
   \<and> (\<exists>s'. set_activeIndex three_tabs (Some 2) = Inr s'
           \<and> map (\<lambda>b. selected (panels s' b)) (tabs three_tabs) = [False, False, True])"
proof -
  have h1: "(0::int) \<le> 2" by simp
  have h2: "2 < int (length (tabs three_tabs))" by (simp add: three_tabs_eq created_def)
  have h3: "\<not> disabled (panels three_tabs (tabs three_tabs ! nat 2))"
    by (simp add: three_tabs_eq created_def fresh_panel_def)
  have h4: "\<not> preventActiveIndexPropagation three_tabs" by (simp add: three_tabs_eq created_def)
  have h5: "0 \<in> set (tabs three_tabs)" by (simp add: three_tabs_eq created_def)
  have h6: "\<forall>b \<in> set (tabs three_tabs). selected (panels three_tabs b) \<longleftrightarrow> b = 0"
    by (simp add: three_tabs_eq created_def fresh_panel_def)
  have t: "tabs three_tabs = [0, 1, 2]" by (simp add: three_tabs_eq created_def)
  have n: "navbar three_tabs \<noteq> None" by (simp add: three_tabs_eq created_def)
  have m: "map (\<lambda>b. selected (panels three_tabs b)) (tabs three_tabs) = [True, False, False]"
    by (simp add: three_tabs_eq created_def fresh_panel_def)
  from set_activeIndex_round_trip [OF h1 h2 h3 h4 h5 h6] n obtain s' where
    r: "set_activeIndex three_tabs (Some 2) = Inr s'"
       "selected (panels (after (set_activeIndex three_tabs (Some 2))) (tabs three_tabs ! nat 2))"
       "\<forall>b \<in> set (tabs three_tabs). b \<noteq> tabs three_tabs ! nat 2
           \<longrightarrow> \<not> selected (panels (after (set_activeIndex three_tabs (Some 2))) b)"
    by blast
  from r have "map (\<lambda>b. selected (panels s' b)) (tabs three_tabs) = [False, False, True]"
    by (simp add: t)
  with r(1) h1 h2 h3 h4 t m show ?thesis by (intro conjI exI [of _ s']) assumption+
qed

text \<open>
  Without a selected panel the setter throws and the target stays unselected (index 1
  in the container whose initialization failed); with two selected panels only the
  first is deselected (index 2 in the container with two panels declared selected:
  panels 1 and 2 are selected afterwards).
\<close>

theorem set_activeIndex_round_trip_counterexample:
  "\<not> preventActiveIndexPropagation negative_index
   \<and> \<not> disabled (panels negative_index (tabs negative_index ! 1))
   \<and> length (tabs negative_index) = 3
   \<and> set_activeIndex negative_index (Some 1) = Inl (TypeError, negative_index\<lparr>activeIndex := Some 1\<rparr>)
   \<and> \<not> selected (panels (after (set_activeIndex negative_index (Some 1))) (tabs negative_index ! 1))
   \<and> \<not> preventActiveIndexPropagation two_declared
   \<and> \<not> disabled (panels two_declared (tabs two_declared ! 2))
   \<and> length (tabs two_declared) = 3
   \<and> map (is_selected (after (set_activeIndex two_declared (Some 2)))) (tabs two_declared)
       = [False, True, True]"
  by (simp add: negative_index_eq two_declared_eq) (simp add: model_defs)

section \<open>Initialization\<close>

text \<open>
  What \<open>initTabs\<close> does when the children are not empty and none of them is selected: an
  index in range selects its panel; no index, or an index at or beyond the length,
  selects the first panel.
\<close>

lemma initTabs_in_range:
  assumes "findSelectedTab (s\<lparr>tabs := ps\<rparr>) = None"
    and "activeIndex s = Some k" and "0 \<le> k" and "k < int (length ps)"
  shows "initTabs s ps = Inr ((write_selected (s\<lparr>tabs := ps\<rparr>) (ps ! nat k) True)\<lparr>tabChanged := True\<rparr>)"
proof -
  from assms(3,4) have "ps \<noteq> []" by auto
  with assms show ?thesis by (simp add: initTabs_def)
qed

lemma initTabs_fallback:
  assumes "findSelectedTab (s\<lparr>tabs := ps\<rparr>) = None" and "ps \<noteq> []"
    and "activeIndex s = None \<or> (\<exists>k. activeIndex s = Some k \<and> int (length ps) \<le> k)"
  shows "initTabs s ps = Inr ((write_selected (s\<lparr>tabs := ps\<rparr>) (ps ! 0) True)\<lparr>tabChanged := True\<rparr>)"
  using assms by (auto simp: initTabs_def)

text \<open>
  C6. With three panels, none selected, and \<^verbatim>\<open>activeIndex\<close> equal to \<open>-1\<close>, \<open>initTabs\<close> does
  not fall back to the first panel: it throws a TypeError (the test
  \<^verbatim>\<open>this.tabs.length > this.activeIndex\<close> holds, and \<^verbatim>\<open>this.tabs[-1]\<close> is \<^verbatim>\<open>undefined\<close>), and
  no panel is selected in the state it leaves.
\<close>

theorem initTabs_negative_index:
  "initTabs (created\<lparr>activeIndex := Some (- 1)\<rparr>) [0, 1, 2]
     = Inl (TypeError, created\<lparr>tabs := [0, 1, 2], activeIndex := Some (- 1)\<rparr>)
   \<and> map (is_selected negative_index) [0, 1, 2] = [False, False, False]"
  by (simp add: negative_index_eq) (simp add: model_defs)

section \<open>Closing the selected panel\<close>

text \<open>
  For a panel that is selected and not disabled, the loop of \<open>closeTab\<close> selects the
  first panel of \<open>tabs\<close> that is not closed, whether it is disabled or not, and whether
  it is the panel being closed or not.
\<close>

lemma closeTab_loop_find:
  assumes "\<not> disabled (panels s tab)"
  shows "closeTab_loop s tab ts =
     (case find (\<lambda>p. \<not> closed (panels s p)) ts of None \<Rightarrow> s | Some p \<Rightarrow> write_selected s p True)"
  using assms by (induction ts) simp_all

lemma closeTab_selected:
  assumes "\<not> disabled (panels s tab)" and "selected (panels s tab)"
  shows "panels (closeTab s tab) =
     (case find (\<lambda>p. \<not> closed (panels s p)) (tabs s) of
        None \<Rightarrow> (panels s)(tab := (set_selected (panels s tab) False)\<lparr>closed := True\<rparr>)
      | Some p \<Rightarrow> if p = tab then (panels s)(tab := (set_selected (panels s tab) True)\<lparr>closed := True\<rparr>)
                  else (panels s)(tab := (set_selected (panels s tab) False)\<lparr>closed := True\<rparr>,
                                  p := set_selected (panels s p) True))"
proof -
  let ?s0 = "write_selected (s\<lparr>tabChanged := True\<rparr>) tab False"
  have d: "\<not> disabled (panels ?s0 tab)"
    using assms(1) by (simp add: write_selected_def set_selected_def)
  have c: "(\<lambda>p. \<not> closed (panels ?s0 p)) = (\<lambda>p. \<not> closed (panels s p))"
    by (rule ext) (simp add: write_selected_def set_selected_def)
  define s1 where "s1 = closeTab_loop ?s0 tab (tabs s)"
  have l: "s1 = (case find (\<lambda>p. \<not> closed (panels s p)) (tabs s) of
                   None \<Rightarrow> ?s0 | Some p \<Rightarrow> write_selected ?s0 p True)"
    unfolding s1_def closeTab_loop_find [OF d] c ..
  have e: "closeTab s tab = s1\<lparr>panels := (panels s1)(tab := (panels s1 tab)\<lparr>closed := True\<rparr>)\<rparr>"
    using assms by (simp add: closeTab_def s1_def Let_def)
  show ?thesis
  proof (cases "find (\<lambda>p. \<not> closed (panels s p)) (tabs s)")
    case None
    with l show ?thesis by (simp add: e write_selected_def set_selected_def)
  next
    case (Some p)
    with l show ?thesis
      by (cases "p = tab") (simp_all add: e write_selected_def set_selected_def fun_upd_twist)
  qed
qed

text \<open>
  Three enabled panels with panel 1 selected: closing panel 1 leaves it closed and
  unselected and selects panel 0.
\<close>

lemma closeTab_middle_panel:
  "map (panels (closeTab (after (initTabs (created\<lparr>activeIndex := Some 1\<rparr>) [0, 1, 2])) 1)) [0, 1, 2]
     = [\<lparr>selected = True, disabled = False, closed = False, loaded = True\<rparr>,
        \<lparr>selected = False, disabled = False, closed = True, loaded = True\<rparr>,
        \<lparr>selected = False, disabled = False, closed = False, loaded = False\<rparr>]"
  by (simp add: model_defs)

text \<open>
  C1. Two runs of \<open>closeTab\<close> on the selected panel.
  \<^item> Panels 0, 1, 2 with panel 0 disabled and panel 1 selected: closing panel 1 leaves it
    closed and unselected, and selects panel 0, the disabled one, not panel 2. The loop
    tests \<^verbatim>\<open>tab.disabled\<close> of the panel being closed.
  \<^item> Panels 0, 1, 2, all enabled, with panel 0 selected: closing panel 0 leaves it closed
    and still selected, and panel 1 unselected. The loop runs before \<^verbatim>\<open>tab.closed = true\<close>,
    so it finds the panel being closed as the first panel that is not closed.
\<close>

theorem closeTab_selects_wrong_panel:
  "map (panels disabled_first) [0, 1, 2]
     = [\<lparr>selected = False, disabled = True, closed = False, loaded = False\<rparr>,
        \<lparr>selected = True, disabled = False, closed = False, loaded = True\<rparr>,
        \<lparr>selected = False, disabled = False, closed = False, loaded = False\<rparr>]
   \<and> map (panels (closeTab disabled_first 1)) [0, 1, 2]
     = [\<lparr>selected = True, disabled = True, closed = False, loaded = True\<rparr>,
        \<lparr>selected = False, disabled = False, closed = True, loaded = True\<rparr>,
        \<lparr>selected = False, disabled = False, closed = False, loaded = False\<rparr>]
   \<and> map (panels three_tabs) [0, 1, 2]
     = [\<lparr>selected = True, disabled = False, closed = False, loaded = True\<rparr>,
        \<lparr>selected = False, disabled = False, closed = False, loaded = False\<rparr>,
        \<lparr>selected = False, disabled = False, closed = False, loaded = False\<rparr>]
   \<and> map (panels (closeTab three_tabs 0)) [0, 1, 2]
     = [\<lparr>selected = True, disabled = False, closed = True, loaded = True\<rparr>,
        \<lparr>selected = False, disabled = False, closed = False, loaded = False\<rparr>,
        \<lparr>selected = False, disabled = False, closed = False, loaded = False\<rparr>]"
  by (simp add: disabled_first_eq three_tabs_eq) (simp add: model_defs)

section \<open>Invariants of the selection\<close>

subsection \<open>The operations keep \<open>tabs\<close>\<close>

lemma closeTab_loop_cases:
  "closeTab_loop s tab ts = s
   \<or> (\<exists>tp \<in> set ts. \<not> closed (panels s tp) \<and> closeTab_loop s tab ts = write_selected s tp True)"
  by (induction ts) auto

lemma tabs_closeTab [simp]: "tabs (closeTab s tab) = tabs s"
proof -
  let ?s0 = "write_selected (s\<lparr>tabChanged := True\<rparr>) tab False"
  from closeTab_loop_cases [of ?s0 tab "tabs s"]
  have "tabs (closeTab_loop ?s0 tab (tabs s)) = tabs s"
    by (auto simp: write_selected_def)
  then show ?thesis by (simp add: closeTab_def Let_def)
qed

lemma tabs_render [simp]: "tabs (ngAfterViewChecked (render s)) = tabs s"
  by (simp add: ngAfterViewChecked_def render_def)

lemma panels_render [simp]: "panels (ngAfterViewChecked (render s)) = panels s"
  by (simp add: ngAfterViewChecked_def render_def)

lemma tabs_set_activeIndex [simp]: "tabs (after (set_activeIndex s val)) = tabs s"
  by (simp add: set_activeIndex_def Let_def write_selected_def split: option.splits)

lemma tabs_open_tab [simp]: "tabs (after (open_tab s ev tab)) = tabs s"
proof (cases "disabled (panels s tab) \<or> selected (panels s tab)")
  case True
  then show ?thesis by (simp add: open_tab_idle)
next
  case False
  with open_tab_unselected [of s tab ev] show ?thesis by simp
qed

lemma tabs_initTabs [simp]: "tabs (after (initTabs s ps)) = ps"
  by (simp add: initTabs_def Let_def write_selected_def split: option.splits)

subsection \<open>The flag \<open>closed\<close> is never reset\<close>

lemma closed_set_selected [simp]: "closed (set_selected p v) = closed p"
  by (simp add: set_selected_def)

lemma closed_write_selected [simp]:
  "closed (panels (write_selected s b v) a) = closed (panels s a)"
  by (simp add: write_selected_def)

lemma closed_closeTab:
  "closed (panels s a) \<Longrightarrow> closed (panels (closeTab s tab) a)"
proof -
  assume c: "closed (panels s a)"
  let ?s0 = "write_selected (s\<lparr>tabChanged := True\<rparr>) tab False"
  from closeTab_loop_cases [of ?s0 tab "tabs s"] c
  have "closed (panels (closeTab_loop ?s0 tab (tabs s)) a)"
    by (auto simp: write_selected_def)
  with c show ?thesis by (simp add: closeTab_def Let_def)
qed

lemma closed_set_activeIndex:
  "closed (panels s a) \<Longrightarrow> closed (panels (after (set_activeIndex s val)) a)"
  by (auto simp: set_activeIndex_def Let_def split: option.splits)

lemma closed_initTabs:
  "closed (panels s a) \<Longrightarrow> closed (panels (after (initTabs s ps)) a)"
  by (auto simp: initTabs_def Let_def split: option.splits)

lemma closed_open_tab:
  assumes "closed (panels s a)"
  shows "closed (panels (after (open_tab s ev tab)) a)"
proof (cases "disabled (panels s tab) \<or> selected (panels s tab)")
  case True
  with assms show ?thesis by (simp add: open_tab_idle)
next
  case False
  with open_tab_unselected [of s tab ev]
  have "panels (after (open_tab s ev tab)) =
      (case findSelectedTab s of None \<Rightarrow> panels s
       | Some a \<Rightarrow> (panels s)(a := set_selected (panels s a) False))
      (tab := set_selected (panels s tab) True)"
    by simp
  with assms show ?thesis by (auto split: option.splits)
qed

lemma closed_step: "closed (panels s a) \<Longrightarrow> closed (panels (step s x) a)"
  by (cases x) (simp_all add: closed_open_tab closed_closeTab closed_set_activeIndex closed_initTabs)

lemma closed_run: "closed (panels s a) \<Longrightarrow> closed (panels (run s xs) a)"
  by (induction xs arbitrary: s) (simp_all add: closed_step)

lemma closeTab_selects_no_closed:
  assumes "closed (panels s a)" and "selected (panels (closeTab s tab) a)"
  shows "selected (panels s a)"
proof (cases "disabled (panels s tab)")
  case True
  with assms show ?thesis by (auto simp: closeTab_def)
next
  case en: False
  show ?thesis
  proof (cases "selected (panels s tab)")
    case False
    with en assms show ?thesis by (auto simp: closeTab_def split: if_splits)
  next
    case True
    let ?s0 = "write_selected (s\<lparr>tabChanged := True\<rparr>) tab False"
    have c0: "closed (panels ?s0 a)" using assms(1) by simp
    from en True assms(2) have sel: "selected (panels (closeTab_loop ?s0 tab (tabs s)) a)"
      by (auto simp: closeTab_def Let_def split: if_splits)
    from closeTab_loop_cases [of ?s0 tab "tabs s"]
    have "selected (panels ?s0 a)"
    proof
      assume "closeTab_loop ?s0 tab (tabs s) = ?s0"
      with sel show ?thesis by simp
    next
      assume "\<exists>tp \<in> set (tabs s). \<not> closed (panels ?s0 tp)
                \<and> closeTab_loop ?s0 tab (tabs s) = write_selected ?s0 tp True"
      then obtain tp where tp: "\<not> closed (panels ?s0 tp)"
        "closeTab_loop ?s0 tab (tabs s) = write_selected ?s0 tp True" by blast
      from tp(1) c0 have "tp \<noteq> a" by auto
      with sel tp(2) show ?thesis by (simp add: write_selected_def)
    qed
    then show ?thesis
      by (cases "a = tab") (simp_all add: write_selected_def set_selected_def)
  qed
qed

text \<open>
  C3. Once a panel is closed it stays closed through every sequence of \<open>open\<close>,
  \<open>closeTab\<close>, the \<^verbatim>\<open>activeIndex\<close> setter, \<open>initTabs\<close> and renderings of the strip; and \<open>closeTab\<close> never selects a
  closed panel: a closed panel that is selected after \<open>closeTab\<close> was selected before.
\<close>

theorem closed_is_permanent:
  assumes "closed (panels s a)"
  shows "closed (panels (run s xs) a)
       \<and> (selected (panels (closeTab s tab) a) \<longrightarrow> selected (panels s a))"
  using assms closed_run [of s a xs] closeTab_selects_no_closed [of s a tab] by blast

text \<open>Panel 1 of three was closed; more operations follow.\<close>

theorem closed_is_permanent_witness:
  "closed (panels one_closed 1) \<and> \<not> selected (panels one_closed 1)
   \<and> closed (panels (run one_closed [Open None 1, SetActiveIndex (Some 0), Render, InitTabs [1, 2], CloseTab 1]) 1)
   \<and> \<not> selected (panels (closeTab one_closed 0) 1)"
proof -
  have h: "closed (panels one_closed 1)" by (simp add: one_closed_eq fresh_panel_def)
  have n: "\<not> selected (panels one_closed 1)" by (simp add: one_closed_eq fresh_panel_def)
  from h n closed_is_permanent [OF h] show ?thesis by blast
qed

text \<open>
  The closed, unselected panel 1 is selected again by the \<^verbatim>\<open>activeIndex\<close> setter, and by
  \<open>open\<close>: neither tests \<^verbatim>\<open>closed\<close>.
\<close>

theorem closed_is_permanent_counterexample:
  "closed (panels one_closed 1) \<and> \<not> selected (panels one_closed 1)
   \<and> selected (panels (after (set_activeIndex one_closed (Some 1))) 1)
   \<and> selected (panels (after (open_tab one_closed None 1)) 1)"
  by (simp add: one_closed_eq) (simp add: model_defs)

subsection \<open>At most one selected panel\<close>

lemma amo_Nil [simp]: "at_most_one_selected_of s []"
  by (simp add: at_most_one_selected_of_def)

lemma amo_open_tab:
  assumes "at_most_one_selected_of s (tabs s)"
  shows "at_most_one_selected_of (after (open_tab s ev tab)) (tabs s)"
proof (cases "disabled (panels s tab) \<or> selected (panels s tab)")
  case True
  with assms show ?thesis
    by (simp add: open_tab_idle at_most_one_selected_of_def is_selected_def)
next
  case False
  define s' where "s' = after (open_tab s ev tab)"
  from False open_tab_unselected [of s tab ev] have
    s': "after (open_tab s ev tab) = s'"
        "panels s' = (case findSelectedTab s of None \<Rightarrow> panels s
                      | Some a \<Rightarrow> (panels s)(a := set_selected (panels s a) False))
                    (tab := set_selected (panels s tab) True)"
    by (simp_all add: s'_def)
  have "\<forall>b \<in> set (tabs s). b \<noteq> tab \<longrightarrow> \<not> selected (panels s' b)"
  proof (cases "findSelectedTab s")
    case None
    then have "panels s' = (panels s)(tab := set_selected (panels s tab) True)"
      using s'(2) by simp
    moreover from None have "\<forall>b \<in> set (tabs s). \<not> selected (panels s b)"
      by (simp add: findSelectedTab_None is_selected_def)
    ultimately show ?thesis by simp
  next
    case (Some a)
    from findSelectedTab_Some [OF Some] assms
    have "\<forall>b \<in> set (tabs s). selected (panels s b) \<longrightarrow> b = a"
      by (auto simp: at_most_one_selected_of_def is_selected_def)
    with Some show ?thesis
      by (auto simp: s'(2) set_selected_def)
  qed
  then show ?thesis
    unfolding s'(1) at_most_one_selected_of_def is_selected_def by metis
qed

lemma amo_set_activeIndex:
  assumes "at_most_one_selected_of s (tabs s)"
  shows "at_most_one_selected_of (after (set_activeIndex s val)) (tabs s)"
proof (cases "findSelectedTab s")
  case None
  then have "findSelectedTab (s\<lparr>activeIndex := val\<rparr>) = None"
    by (simp add: findSelectedTab_def is_selected_fun)
  with assms show ?thesis
    by (auto simp: set_activeIndex_def Let_def at_most_one_selected_of_def is_selected_def
        split: option.splits)
next
  case (Some a)
  then have f: "findSelectedTab (s\<lparr>activeIndex := val\<rparr>) = Some a"
    by (simp add: findSelectedTab_def is_selected_fun)
  from findSelectedTab_Some [OF Some] assms
  have only: "\<forall>b \<in> set (tabs s). selected (panels s b) \<longrightarrow> b = a"
    by (auto simp: at_most_one_selected_of_def is_selected_def)
  show ?thesis
  proof (cases "preventActiveIndexPropagation s")
    case True
    with assms show ?thesis
      by (simp add: set_activeIndex_def Let_def at_most_one_selected_of_def is_selected_def)
  next
    case g: False
    show ?thesis
    proof (cases val)
      case None
      with g assms show ?thesis
        by (simp add: set_activeIndex_def Let_def at_most_one_selected_of_def is_selected_def)
    next
      case (Some k)
      let ?s2 = "write_selected (s\<lparr>activeIndex := val\<rparr>) a False"
      have none: "\<forall>b \<in> set (tabs s). \<not> selected (panels ?s2 b)"
        using only by (auto simp: write_selected_def set_selected_def)
      have a2: "at_most_one_selected_of ?s2 (tabs s)"
        using none by (simp add: at_most_one_selected_of_def is_selected_def)
      have a3: "at_most_one_selected_of
          (after (updateScrollBar ((write_selected ?s2 c True)\<lparr>tabChanged := True\<rparr>) k)) (tabs s)" for c
        using none
        by (auto simp: at_most_one_selected_of_def is_selected_def write_selected_def)
      have a1: "at_most_one_selected_of (s\<lparr>activeIndex := val\<rparr>) (tabs s)"
        using assms by (simp add: at_most_one_selected_of_def is_selected_def)
      from g Some f a1 a2 a3 show ?thesis
        by (simp add: set_activeIndex_def Let_def)
    qed
  qed
qed

lemma amo_initTabs:
  assumes "at_most_one_selected_of s ps"
  shows "at_most_one_selected_of (after (initTabs s ps)) ps"
proof (cases "findSelectedTab (s\<lparr>tabs := ps\<rparr>)")
  case (Some a)
  with assms show ?thesis
    by (simp add: initTabs_def Let_def at_most_one_selected_of_def is_selected_def)
next
  case None
  then have none: "\<forall>b \<in> set ps. \<not> selected (panels s b)"
    by (simp add: findSelectedTab_None is_selected_def)
  have a0: "at_most_one_selected_of (s\<lparr>tabs := ps\<rparr>) ps"
    using assms by (simp add: at_most_one_selected_of_def is_selected_def)
  have a1: "at_most_one_selected_of ((write_selected (s\<lparr>tabs := ps\<rparr>) c True)\<lparr>tabChanged := True\<rparr>) ps" for c
    using none by (auto simp: at_most_one_selected_of_def is_selected_def write_selected_def)
  from None a0 a1 show ?thesis
    by (simp add: initTabs_def Let_def split: option.splits)
qed

lemma amo_closeTab:
  assumes "at_most_one_selected_of s (tabs s)" and "tab \<in> set (tabs s)"
  shows "at_most_one_selected_of (closeTab s tab) (tabs s)"
proof (cases "\<not> disabled (panels s tab) \<and> selected (panels s tab)")
  case False
  with assms(1) show ?thesis
    by (auto simp: closeTab_def at_most_one_selected_of_def is_selected_def)
next
  case True
  let ?s0 = "write_selected (s\<lparr>tabChanged := True\<rparr>) tab False"
  let ?s1 = "closeTab_loop ?s0 tab (tabs s)"
  from True assms have only: "\<forall>b \<in> set (tabs s). selected (panels s b) \<longrightarrow> b = tab"
    by (auto simp: at_most_one_selected_of_def is_selected_def)
  then have none: "\<forall>b \<in> set (tabs s). \<not> selected (panels ?s0 b)"
    by (auto simp: write_selected_def set_selected_def)
  from closeTab_loop_cases [of ?s0 tab "tabs s"]
  have "at_most_one_selected_of ?s1 (tabs s)"
  proof
    assume "?s1 = ?s0"
    with none show ?thesis by (simp add: at_most_one_selected_of_def is_selected_def)
  next
    assume "\<exists>tp \<in> set (tabs s). \<not> closed (panels ?s0 tp) \<and> ?s1 = write_selected ?s0 tp True"
    then obtain tp where "?s1 = write_selected ?s0 tp True" by blast
    moreover have "at_most_one_selected_of (write_selected ?s0 tp True) (tabs s)"
      using none by (auto simp: at_most_one_selected_of_def is_selected_def write_selected_def)
    ultimately show ?thesis by simp
  qed
  then have "at_most_one_selected_of (?s1\<lparr>panels := (panels ?s1)(tab := (panels ?s1 tab)\<lparr>closed := True\<rparr>)\<rparr>) (tabs s)"
    by (auto simp: at_most_one_selected_of_def is_selected_def)
  with True show ?thesis by (simp add: closeTab_def Let_def)
qed

lemma amo_step:
  assumes "at_most_one_selected_of s (tabs s)" and "permitted s x"
  shows "at_most_one_selected_of (step s x) (tabs (step s x))"
proof (cases x)
  case (Open ev tab)
  with amo_open_tab [OF assms(1), of ev tab] show ?thesis by simp
next
  case (CloseTab tab)
  with assms amo_closeTab [of s tab] show ?thesis by simp
next
  case (SetActiveIndex val)
  with amo_set_activeIndex [OF assms(1), of val] show ?thesis by simp
next
  case (InitTabs ps)
  with assms amo_initTabs [of s ps] show ?thesis by simp
next
  case Render
  with assms(1) show ?thesis by (simp add: at_most_one_selected_of_def is_selected_def)
qed

lemma amo_run:
  "at_most_one_selected_of s (tabs s) \<Longrightarrow> admissible s xs
   \<Longrightarrow> at_most_one_selected_of (run s xs) (tabs (run s xs))"
  by (induction xs arbitrary: s) (simp_all add: amo_step)

lemma amo_open:
  "at_most_one_selected_of s (tabs s) \<Longrightarrow> at_most_one_open_selected s"
  by (auto simp: at_most_one_selected_of_def at_most_one_open_selected_def)

text \<open>
  C2. Take any sequence of \<open>open\<close>, \<open>closeTab\<close>, the \<^verbatim>\<open>activeIndex\<close> setter and \<open>initTabs\<close>
  that starts with \<open>initTabs\<close>, in which every \<open>initTabs\<close> receives children of which at
  most one is selected at that moment and every \<open>closeTab\<close> receives a panel of \<open>tabs\<close>;
  the strip may be rendered again at any point of it. In the state it leads to (calls
  that throw included), at most one panel of \<open>tabs\<close> that is not closed is selected.
\<close>

theorem reachable_at_most_one_selected:
  assumes "admissible s0 (InitTabs ps # xs)"
  shows "at_most_one_open_selected (run s0 (InitTabs ps # xs))"
proof -
  let ?s1 = "step s0 (InitTabs ps)"
  from assms have p: "at_most_one_selected_of s0 ps" and a: "admissible ?s1 xs"
    by simp_all
  from amo_initTabs [OF p] have "at_most_one_selected_of ?s1 (tabs ?s1)" by simp
  from amo_run [OF this a] have "at_most_one_selected_of (run ?s1 xs) (tabs (run ?s1 xs))" .
  then show ?thesis by (simp add: amo_open)
qed

text \<open>Five operations on three fresh panels, with the strip rendered in between.\<close>

theorem reachable_at_most_one_selected_witness:
  "admissible created
     (InitTabs [0, 1, 2] # [Render, Open None 2, CloseTab 2, Render, SetActiveIndex (Some 1), InitTabs [1, 2]])
   \<and> at_most_one_open_selected
        (run created
          (InitTabs [0, 1, 2] # [Render, Open None 2, CloseTab 2, Render, SetActiveIndex (Some 1), InitTabs [1, 2]]))"
proof -
  have h: "admissible created
      (InitTabs [0, 1, 2] # [Render, Open None 2, CloseTab 2, Render, SetActiveIndex (Some 1), InitTabs [1, 2]])"
    by (simp add: model_defs at_most_one_selected_of_def)
  from h reachable_at_most_one_selected [OF h] show ?thesis by blast
qed

text \<open>
  Two ways to two selected open panels. With panels 0 and 1 both declared selected,
  \<open>initTabs\<close> finds a selected panel and changes nothing. With three fresh panels:
  panel 2 is selected at initialization and then removed from the children, panel 1 is
  opened, and \<open>closeTab\<close> on the removed panel 2, which is still selected, selects
  panel 0 next to panel 1.
\<close>

theorem reachable_at_most_one_selected_counterexample:
  "two_declared = run (created\<lparr>panels := (\<lambda>a. fresh_panel)
          (0 := fresh_panel\<lparr>selected := True, loaded := True\<rparr>,
           1 := fresh_panel\<lparr>selected := True, loaded := True\<rparr>)\<rparr>) [InitTabs [0, 1, 2], Render]
   \<and> \<not> at_most_one_open_selected two_declared
   \<and> \<not> at_most_one_open_selected stale_close"
proof -
  have "\<not> at_most_one_open_selected two_declared"
    by (simp add: two_declared_eq) (simp add: at_most_one_open_selected_def model_defs)
  moreover have "\<not> at_most_one_open_selected stale_close"
    using stale_close_panels by (simp add: at_most_one_open_selected_def is_selected_def)
  ultimately show ?thesis by (simp add: two_declared_def)
qed

section \<open>Scrolling by one page\<close>






end
